theory Spec2Isabelle
  imports Complex_Main
begin

section \<open>Python values used by the sampler and the density estimator\<close>

text \<open>
  A shallow embedding of \<^verbatim>\<open>alabEBM/algorithms/algorithm.py\<close>, \<^verbatim>\<open>alabEBM/utils/fast_kde.py\<close>
  and the guard of \<^verbatim>\<open>alabEBM/run.py\<close>.

  Every float64 is modelled by an exact real number: rounding and overflow are left out.
  The special values that the control flow of the sampler depends on (the initial
  \<^verbatim>\<open>-np.inf\<close>, and the \<^verbatim>\<open>nan\<close> of \<^verbatim>\<open>inf - inf\<close> or of the mean of an empty array)
  are values of \<open>pyfloat\<close>.
\<close>

datatype py_error =
    UnboundLocalError string
  | ValueError string
  | KeyError
  | IndexError
  | ZeroDivisionError

datatype pyfloat = NaN | NInf | PInf | Fin real

text \<open>IEEE subtraction: \<^verbatim>\<open>inf - inf\<close> is \<^verbatim>\<open>nan\<close>.\<close>

fun fsub :: "pyfloat \<Rightarrow> pyfloat \<Rightarrow> pyfloat" where
  "fsub NaN _ = NaN"
| "fsub _ NaN = NaN"
| "fsub (Fin a) (Fin b) = Fin (a - b)"
| "fsub (Fin a) PInf = NInf"
| "fsub (Fin a) NInf = PInf"
| "fsub PInf PInf = NaN"
| "fsub PInf _ = PInf"
| "fsub NInf NInf = NaN"
| "fsub NInf _ = NInf"

text \<open>IEEE \<^verbatim>\<open><\<close>: every comparison with \<^verbatim>\<open>nan\<close> is false.\<close>

fun flt :: "pyfloat \<Rightarrow> pyfloat \<Rightarrow> bool" where
  "flt NaN _ = False"
| "flt _ NaN = False"
| "flt NInf NInf = False"
| "flt NInf _ = True"
| "flt _ NInf = False"
| "flt PInf _ = False"
| "flt (Fin a) PInf = True"
| "flt (Fin a) (Fin b) = (a < b)"

definition fgt :: "pyfloat \<Rightarrow> pyfloat \<Rightarrow> bool" where
  "fgt a b = flt b a"

text \<open>\<^verbatim>\<open>np.exp\<close>\<close>

fun fexp :: "pyfloat \<Rightarrow> pyfloat" where
  "fexp NaN = NaN"
| "fexp NInf = Fin 0"
| "fexp PInf = PInf"
| "fexp (Fin x) = Fin (exp x)"

definition is_finite :: "pyfloat \<Rightarrow> bool" where
  "is_finite x = (case x of Fin _ \<Rightarrow> True | _ \<Rightarrow> False)"

section \<open>The Metropolis-Hastings sampler (\<^verbatim>\<open>algorithm.py\<close>)\<close>

text \<open>
  The functions of \<^verbatim>\<open>data_utils\<close>, the pandas queries on the data frame and numpy's
  random generator are collaborators whose code is not part of the sampler; they are the
  fields of \<open>collab\<close>. The random generator is an explicit state \<open>'g\<close>, threaded through
  the calls in program order.
\<close>

record ('d, 'b, 'p, 'g, 'pd, 'bd, 'sp) collab =
  biomarker_unique :: "'d \<Rightarrow> 'b list"
  non_diseased_participants :: "'d \<Rightarrow> int list"
  get_theta_phi_estimates :: "'d \<Rightarrow> 'p"
  permutation :: "int list \<Rightarrow> 'g \<Rightarrow> int list \<times> 'g"
  shuffle_order :: "int list \<Rightarrow> int \<Rightarrow> 'g \<Rightarrow> int list \<times> 'g"
  preprocess_participant_data :: "'d \<Rightarrow> ('b \<times> int) list \<Rightarrow> 'pd"
  preprocess_biomarker_data :: "'d \<Rightarrow> ('b \<times> int) list \<Rightarrow> 'bd"
  compute_total_ln_likelihood_and_stage_likelihoods ::
    "'pd \<Rightarrow> int list \<Rightarrow> 'p \<Rightarrow> int list \<Rightarrow> pyfloat \<times> 'sp"
  update_theta_phi_estimates ::
    "'bd \<Rightarrow> 'p \<Rightarrow> 'sp \<Rightarrow> int list \<Rightarrow> string \<Rightarrow> real \<Rightarrow> real \<Rightarrow> 'p"
  rand :: "'g \<Rightarrow> real \<times> 'g"

text \<open>The arguments of \<^verbatim>\<open>metropolis_hastings\<close>.\<close>

record 'd mh_args =
  data_we_have :: 'd
  iterations :: int
  n_shuffle :: int
  algorithm :: string
  prior_n :: real
  prior_v :: real

text \<open>
  The local variables that live across iterations. A dict built by
  \<^verbatim>\<open>dict(zip(biomarkers, order))\<close> is the association list \<open>zip biomarkers order\<close>
  (the biomarkers come from \<^verbatim>\<open>unique()\<close>, so no key repeats). \<open>progress\<close> holds the
  records handed to \<^verbatim>\<open>logging.info\<close>.
\<close>

record ('b, 'p, 'g) mh_state =
  current_order :: "int list"
  current_order_dict :: "('b \<times> int) list"
  current_ln_likelihood :: pyfloat
  current_theta_phi :: 'p
  acceptance_count :: nat
  all_accepted_orders :: "('b \<times> int) list list"
  log_likelihoods :: "pyfloat list"
  progress :: "(nat \<times> nat \<times> pyfloat \<times> int list) list"
  gen :: 'g

text \<open>
  What one iteration proposes (lines 55 to 111). \<^verbatim>\<open>new_theta_phi\<close> is assigned only in
  the branch \<^verbatim>\<open>algorithm in ['conjugate_priors', 'mle']\<close>; \<open>None\<close> is the unbound local.
\<close>

record ('b, 'p) proposal =
  new_order :: "int list"
  new_order_dict :: "('b \<times> int) list"
  new_ln_likelihood :: pyfloat
  new_theta_phi :: "'p option"

definition n_stages :: "('d, 'b, 'p, 'g, 'pd, 'bd, 'sp) collab \<Rightarrow> 'd \<Rightarrow> int" where
  "n_stages c d = int (length (biomarker_unique c d)) + 1"

definition diseased_stages :: "('d, 'b, 'p, 'g, 'pd, 'bd, 'sp) collab \<Rightarrow> 'd \<Rightarrow> int list" where
  "diseased_stages c d = [1 .. n_stages c d - 1]"

definition propose ::
  "('d, 'b, 'p, 'g, 'pd, 'bd, 'sp) collab \<Rightarrow> 'd mh_args \<Rightarrow> ('b, 'p, 'g) mh_state
     \<Rightarrow> ('b, 'p) proposal \<times> 'g" where
  "propose c a st =
     (let d = data_we_have a;
          (order', g') = shuffle_order c (current_order st) (n_shuffle a) (gen st);
          dict' = zip (biomarker_unique c d) order';
          participant_data = preprocess_participant_data c d dict'
      in if algorithm a \<in> set [''conjugate_priors'', ''mle'']
         then
           (let biomarker_data = preprocess_biomarker_data c d dict';
                stage_likelihoods_posteriors =
                  snd (compute_total_ln_likelihood_and_stage_likelihoods c participant_data
                         (non_diseased_participants c d) (current_theta_phi st)
                         (diseased_stages c d));
                theta_phi' =
                  update_theta_phi_estimates c biomarker_data (current_theta_phi st)
                    stage_likelihoods_posteriors (diseased_stages c d) (algorithm a)
                    (prior_n a) (prior_v a);
                ll' =
                  fst (compute_total_ln_likelihood_and_stage_likelihoods c participant_data
                         (non_diseased_participants c d) theta_phi' (diseased_stages c d))
            in (\<lparr>new_order = order', new_order_dict = dict', new_ln_likelihood = ll',
                  new_theta_phi = Some theta_phi'\<rparr>, g'))
         else
           (let ll' =
                  fst (compute_total_ln_likelihood_and_stage_likelihoods c participant_data
                         (non_diseased_participants c d) (get_theta_phi_estimates c d)
                         (diseased_stages c d))
            in (\<lparr>new_order = order', new_order_dict = dict', new_ln_likelihood = ll',
                  new_theta_phi = None\<rparr>, g')))"

text \<open>Lines 114 and 115.\<close>

definition prob_accept :: "pyfloat \<Rightarrow> pyfloat \<Rightarrow> pyfloat" where
  "prob_accept new_ll current_ll =
     (let delta = fsub new_ll current_ll
      in if fgt delta (Fin 0) then Fin 1 else fexp delta)"

text \<open>Line 118: \<^verbatim>\<open>np.random.rand() < prob_accept\<close>, for the draw \<open>u\<close>.\<close>

definition accepts :: "real \<Rightarrow> pyfloat \<Rightarrow> pyfloat \<Rightarrow> bool" where
  "accepts u new_ll current_ll = flt (Fin u) (prob_accept new_ll current_ll)"

text \<open>
  Lines 118 to 124. The assignments run in program order, so reading the unbound
  \<^verbatim>\<open>new_theta_phi\<close> raises after the ordering and the log-likelihood were replaced and
  before the counter is incremented; the exception leaves the function.
\<close>

definition decide ::
  "string \<Rightarrow> real \<Rightarrow> ('b, 'p) proposal \<Rightarrow> ('b, 'p, 'g) mh_state
     \<Rightarrow> py_error + ('b, 'p, 'g) mh_state" where
  "decide alg u p st =
     (if accepts u (new_ln_likelihood p) (current_ln_likelihood st)
      then
        (let st1 = st\<lparr>current_order := new_order p,
                       current_order_dict := new_order_dict p,
                       current_ln_likelihood := new_ln_likelihood p\<rparr>
         in if alg \<noteq> ''hard_kmeans''
            then (case new_theta_phi p of
                    None \<Rightarrow> Inl (UnboundLocalError ''new_theta_phi'')
                  | Some tp \<Rightarrow>
                      Inr (st1\<lparr>current_theta_phi := tp,
                               acceptance_count := acceptance_count st1 + 1\<rparr>))
            else Inr (st1\<lparr>acceptance_count := acceptance_count st1 + 1\<rparr>))
      else Inr st)"

text \<open>Lines 129 to 137: the throttled progress record.\<close>

definition log_progress ::
  "int \<Rightarrow> nat \<Rightarrow> ('b, 'p, 'g) mh_state \<Rightarrow> ('b, 'p, 'g) mh_state" where
  "log_progress its iteration st =
     (if (int iteration + 1) mod (max 10 (its div 10)) = 0
      then st\<lparr>progress := progress st @
                 [(iteration + 1, acceptance_count st, current_ln_likelihood st,
                   map snd (current_order_dict st))]\<rparr>
      else st)"

text \<open>The body of the loop, lines 53 to 137.\<close>

definition mh_iteration ::
  "('d, 'b, 'p, 'g, 'pd, 'bd, 'sp) collab \<Rightarrow> 'd mh_args \<Rightarrow> nat \<Rightarrow> ('b, 'p, 'g) mh_state
     \<Rightarrow> py_error + ('b, 'p, 'g) mh_state" where
  "mh_iteration c a iteration st =
     (let st1 = st\<lparr>log_likelihoods := log_likelihoods st @ [current_ln_likelihood st]\<rparr>;
          (p, g1) = propose c a st1;
          (u, g2) = rand c g1
      in case decide (algorithm a) u p (st1\<lparr>gen := g2\<rparr>) of
           Inl e \<Rightarrow> Inl e
         | Inr st2 \<Rightarrow>
             Inr (log_progress (iterations a) iteration
                    (st2\<lparr>all_accepted_orders :=
                           all_accepted_orders st2 @ [current_order_dict st2]\<rparr>)))"

fun mh_loop ::
  "('d, 'b, 'p, 'g, 'pd, 'bd, 'sp) collab \<Rightarrow> 'd mh_args \<Rightarrow> nat list \<Rightarrow> ('b, 'p, 'g) mh_state
     \<Rightarrow> py_error + ('b, 'p, 'g) mh_state" where
  "mh_loop c a [] st = Inr st"
| "mh_loop c a (i # is) st =
     (case mh_iteration c a i st of Inl e \<Rightarrow> Inl e | Inr st' \<Rightarrow> mh_loop c a is st')"

text \<open>Lines 32 to 50.\<close>

definition mh_init ::
  "('d, 'b, 'p, 'g, 'pd, 'bd, 'sp) collab \<Rightarrow> 'd mh_args \<Rightarrow> 'g \<Rightarrow> ('b, 'p, 'g) mh_state" where
  "mh_init c a g =
     (let d = data_we_have a;
          (order0, g0) = permutation c [1 .. n_stages c d - 1] g
      in \<lparr>current_order = order0,
          current_order_dict = zip (biomarker_unique c d) order0,
          current_ln_likelihood = NInf,
          current_theta_phi = get_theta_phi_estimates c d,
          acceptance_count = 0,
          all_accepted_orders = [],
          log_likelihoods = [],
          progress = [],
          gen = g0\<rparr>)"

text \<open>
  The value of \<^verbatim>\<open>return all_accepted_orders, log_likelihoods\<close>: a Python tuple is the
  list of its items, each tagged with what it holds.
\<close>

datatype ('b, 'p, 'sp) ret_item =
    AcceptedOrders "('b \<times> int) list list"
  | LogLikelihoods "pyfloat list"
  | ThetaPhiParams 'p
  | StagePosterior 'sp

definition mh_final ::
  "('d, 'b, 'p, 'g, 'pd, 'bd, 'sp) collab \<Rightarrow> 'd mh_args \<Rightarrow> 'g
     \<Rightarrow> py_error + ('b, 'p, 'g) mh_state" where
  "mh_final c a g = mh_loop c a [0 ..< nat (iterations a)] (mh_init c a g)"

definition metropolis_hastings ::
  "('d, 'b, 'p, 'g, 'pd, 'bd, 'sp) collab \<Rightarrow> 'd mh_args \<Rightarrow> 'g
     \<Rightarrow> py_error + ('b, 'p, 'sp) ret_item list" where
  "metropolis_hastings c a g =
     (case mh_final c a g of
        Inl e \<Rightarrow> Inl e
      | Inr st \<Rightarrow> Inr [AcceptedOrders (all_accepted_orders st),
                       LogLikelihoods (log_likelihoods st)])"

text \<open>
  The proposal of the first iteration: \<open>propose\<close> on the initial state. (The entry the
  iteration appends to \<^verbatim>\<open>log_likelihoods\<close> beforehand is not read by \<open>propose\<close>.)
\<close>

definition first_proposal ::
  "('d, 'b, 'p, 'g, 'pd, 'bd, 'sp) collab \<Rightarrow> 'd mh_args \<Rightarrow> 'g \<Rightarrow> ('b, 'p) proposal" where
  "first_proposal c a g = fst (propose c a (mh_init c a g))"

text \<open>
  A small concrete set of collaborators, to run the sampler on: two biomarkers, a shuffle
  that reverses the ordering, a likelihood read off the parameter and the first stage of
  the ordering, a re-estimation that adds one, and a generator that always draws 1/2.
\<close>

definition example_collab ::
  "(unit, string, int, nat, (string \<times> int) list, unit, unit) collab" where
  "example_collab =
     \<lparr>biomarker_unique = (\<lambda>_. [''A'', ''B'']),
      non_diseased_participants = (\<lambda>_. [0]),
      get_theta_phi_estimates = (\<lambda>_. 0),
      permutation = (\<lambda>xs g. (xs, g + 1)),
      shuffle_order = (\<lambda>xs n g. (rev xs, g + 1)),
      preprocess_participant_data = (\<lambda>_ dict. dict),
      preprocess_biomarker_data = (\<lambda>_ _. ()),
      compute_total_ln_likelihood_and_stage_likelihoods =
        (\<lambda>pd _ tp _. (Fin (real_of_int (tp - sum_list (map snd (take 1 pd)))), ())),
      update_theta_phi_estimates = (\<lambda>_ tp _ _ _ _ _. tp + 1),
      rand = (\<lambda>g. (1 / 2, g + 1))\<rparr>"

definition example_args :: "string \<Rightarrow> int \<Rightarrow> unit mh_args" where
  "example_args alg n =
     \<lparr>data_we_have = (), iterations = n, n_shuffle = 2, algorithm = alg,
      prior_n = 1, prior_v = 2\<rparr>"

section \<open>The guard of the run entry point (\<^verbatim>\<open>run.py\<close>)\<close>

text \<open>
  Lines 60 to 62. \<^verbatim>\<open>hard_kmeans\<close> is the fixed-clustering baseline, \<^verbatim>\<open>conjugate_priors\<close>
  and \<^verbatim>\<open>mle\<close> the two parametric models, \<^verbatim>\<open>em\<close> and \<^verbatim>\<open>kde\<close> the non-parametric
  model. \<close>

definition allowed_algorithms :: "string set" where
  "allowed_algorithms = {''hard_kmeans'', ''mle'', ''conjugate_priors'', ''em'', ''kde''}"

text \<open>
  The outcome of a failed run: the \<^verbatim>\<open>ValueError\<close> of line 62, with the rejected name, or
  an exception of a later statement, logged and raised again.
\<close>

datatype run_error = InvalidAlgorithm string | Raised py_error

text \<open>
  What \<^verbatim>\<open>run_ebm\<close> does to the outside world, in order. Reading the file, the sampler
  (imported from the installed package) and the reporting after it (lines 114 to 212) are
  collaborators.
\<close>

datatype run_event =
    CleanupOldFiles string
  | MakeDirs string
  | SetupLogging
  | ReadCsv string
  | RunSampler int
  | Report

record ('d, 'it, 'r) run_collab =
  read_csv :: "string \<Rightarrow> py_error + 'd"
  sampler :: "'d \<Rightarrow> int \<Rightarrow> int \<Rightarrow> string \<Rightarrow> real \<Rightarrow> real \<Rightarrow> real \<Rightarrow> py_error + 'it list"
  report :: "'it \<Rightarrow> 'it \<Rightarrow> 'it \<Rightarrow> 'it \<Rightarrow> py_error + 'r"

record run_args =
  data_file :: string
  run_algorithm :: string
  n_iter :: int
  run_n_shuffle :: int
  run_prior_n :: real
  run_prior_v :: real
  weight_change_threshold :: real

definition run_ebm ::
  "('d, 'it, 'r) run_collab \<Rightarrow> run_args \<Rightarrow> run_event list \<times> (run_error + 'r)" where
  "run_ebm rc a =
     (if run_algorithm a \<notin> allowed_algorithms
      then ([], Inl (InvalidAlgorithm (run_algorithm a)))
      else
        (let ev1 = [CleanupOldFiles (run_algorithm a), MakeDirs (run_algorithm a),
                    SetupLogging, ReadCsv (data_file a)]
         in case read_csv rc (data_file a) of
              Inl e \<Rightarrow> (ev1, Inl (Raised e))
            | Inr d \<Rightarrow>
                (let ev2 = ev1 @ [RunSampler (n_iter a)]
                 in case sampler rc d (n_iter a) (run_n_shuffle a) (run_algorithm a)
                           (run_prior_n a) (run_prior_v a) (weight_change_threshold a) of
                      Inl e \<Rightarrow> (ev2, Inl (Raised e))
                    | Inr [accepted_order_dicts, lls, final_theta_phi_params,
                           final_stage_post] \<Rightarrow>
                        (ev2 @ [Report],
                         case report rc accepted_order_dicts lls final_theta_phi_params
                                final_stage_post of
                           Inl e \<Rightarrow> Inl (Raised e)
                         | Inr r \<Rightarrow> Inr r)
                    | Inr _ \<Rightarrow> (ev2, Inl (Raised (ValueError ''unpack''))))))"

text \<open>Collaborators and arguments to run the entry point on.\<close>

definition example_run_collab :: "(unit, unit, unit) run_collab" where
  "example_run_collab =
     \<lparr>read_csv = (\<lambda>_. Inr ()),
      sampler = (\<lambda>_ _ _ _ _ _ _. Inr [(), (), (), ()]),
      report = (\<lambda>_ _ _ _. Inr ())\<rparr>"

definition example_run_args :: "string \<Rightarrow> run_args" where
  "example_run_args alg =
     \<lparr>data_file = ''data.csv'', run_algorithm = alg, n_iter = 2000, run_n_shuffle = 2,
      run_prior_n = 1, run_prior_v = 1, weight_change_threshold = 1 / 100\<rparr>"

section \<open>The kernel density estimator (\<^verbatim>\<open>fast_kde.py\<close>)\<close>


definition SQRT_2PI :: real where
  "SQRT_2PI = 3989422804014327 / 10 ^ 16"

text \<open>The division by the bandwidth is guarded where the kernel is called.\<close>

definition gaussian_kernel :: "real \<Rightarrow> real \<Rightarrow> real \<Rightarrow> real" where
  "gaussian_kernel x xi bw =
     (let u = (x - xi) / bw in SQRT_2PI * exp (- (1 / 2) * u * u) / bw)"

text \<open>
  \<^verbatim>\<open>weighted_kde_evaluate\<close>: the loop over \<^verbatim>\<open>range(len(samples))\<close> with its running
  \<^verbatim>\<open>result\<close>. Reading \<^verbatim>\<open>weights[i]\<close> past the end and dividing by a zero bandwidth are
  errors.
\<close>

fun weighted_kde_loop :: "real \<Rightarrow> real list \<Rightarrow> real list \<Rightarrow> real \<Rightarrow> real \<Rightarrow> py_error + real" where
  "weighted_kde_loop x [] ws bw result = Inr result"
| "weighted_kde_loop x (s # ss) [] bw result = Inl IndexError"
| "weighted_kde_loop x (s # ss) (w # ws) bw result =
     (if bw = 0 then Inl ZeroDivisionError
      else weighted_kde_loop x ss ws bw (result + w * gaussian_kernel x s bw))"

definition weighted_kde_evaluate :: "real \<Rightarrow> real list \<Rightarrow> real list \<Rightarrow> real \<Rightarrow> py_error + real" where
  "weighted_kde_evaluate x samples ws bw = weighted_kde_loop x samples ws bw 0"

text \<open>
  A \<^verbatim>\<open>FastKDE\<close> object. \<open>tree\<close> is the point set the KD-tree indexes; \<open>cache\<close> is the
  dict \<^verbatim>\<open>_cache\<close> in insertion order.
\<close>

record FastKDE =
  data :: "real list"
  weights :: "real list"
  bandwidth :: real
  tree :: "real list"
  cache :: "(real \<times> real) list"

text \<open>The \<^verbatim>\<open>bandwidth\<close> argument: the string \<^verbatim>\<open>'silverman'\<close> or a float.\<close>

datatype bandwidth_arg = Silverman | Bandwidth real

definition np_std :: "real list \<Rightarrow> real" where
  "np_std xs =
     (let n = real (length xs); m = sum_list xs / n
      in sqrt (sum_list (map (\<lambda>x. (x - m) ^ 2) xs) / n))"

text \<open>
  \<^verbatim>\<open>FastKDE.__init__\<close>. With no data, \<^verbatim>\<open>4 / (3 * n)\<close> divides by the integer zero.
\<close>

definition FastKDE_init :: "real list \<Rightarrow> real list option \<Rightarrow> bandwidth_arg \<Rightarrow> py_error + FastKDE" where
  "FastKDE_init d w b =
     (let ws = (case w of None \<Rightarrow> replicate (length d) 1 | Some w' \<Rightarrow> w');
          weight_sum = sum_list ws;
          ws' = (if weight_sum > 0 then map (\<lambda>x. x / weight_sum) ws else ws)
      in case b of
           Silverman \<Rightarrow>
             (if length d = 0 then Inl ZeroDivisionError
              else Inr \<lparr>data = d, weights = ws',
                        bandwidth = max (np_std d) (1 / 10 ^ 6)
                                    * (4 / (3 * real (length d))) powr (1 / 5),
                        tree = d, cache = []\<rparr>)
         | Bandwidth h \<Rightarrow>
             Inr \<lparr>data = d, weights = ws', bandwidth = max h (1 / 10 ^ 6),
                  tree = d, cache = []\<rparr>)"

text \<open>\<^verbatim>\<open>tree.query_ball_point(x, r)\<close>: the indices of the points within distance \<open>r\<close>.\<close>

definition query_ball_point :: "real list \<Rightarrow> real \<Rightarrow> real \<Rightarrow> nat list" where
  "query_ball_point pts x r = filter (\<lambda>i. \<bar>pts ! i - x\<bar> \<le> r) [0 ..< length pts]"

text \<open>Indexing an array with a list of indices, \<^verbatim>\<open>xs[indices]\<close>.\<close>

definition take_indices :: "real list \<Rightarrow> nat list \<Rightarrow> py_error + real list" where
  "take_indices xs ixs =
     (if list_all (\<lambda>i. i < length xs) ixs then Inr (map ((!) xs) ixs) else Inl IndexError)"

text \<open>
  The evaluation of one point, as both branches of \<^verbatim>\<open>evaluate\<close> write it (lines 139 to
  146 and 159 to 163). \<open>None\<close>: no neighbour, the slot of \<^verbatim>\<open>results\<close> keeps its zero.
\<close>

definition kde_at :: "FastKDE \<Rightarrow> real \<Rightarrow> py_error + real option" where
  "kde_at k x =
     (let indices = query_ball_point (tree k) x (3 * bandwidth k)
      in if indices = [] then Inr None
         else (case take_indices (data k) indices of
                 Inl e \<Rightarrow> Inl e
               | Inr ds \<Rightarrow>
                   (case take_indices (weights k) indices of
                      Inl e \<Rightarrow> Inl e
                    | Inr ws \<Rightarrow>
                        (case weighted_kde_evaluate x ds ws (bandwidth k) of
                           Inl e \<Rightarrow> Inl e
                         | Inr r \<Rightarrow> Inr (Some r)))))"

text \<open>Lines 131 to 150: at most ten points, one at a time through the cache.\<close>

fun evaluate_small :: "FastKDE \<Rightarrow> real list \<Rightarrow> py_error + (real list \<times> FastKDE)" where
  "evaluate_small k [] = Inr ([], k)"
| "evaluate_small k (x # xs) =
     (case map_of (cache k) x of
        Some v \<Rightarrow>
          (case evaluate_small k xs of
             Inl e \<Rightarrow> Inl e
           | Inr (rs, k') \<Rightarrow> Inr (v # rs, k'))
      | None \<Rightarrow>
          (case kde_at k x of
             Inl e \<Rightarrow> Inl e
           | Inr None \<Rightarrow>
               (case evaluate_small k xs of
                  Inl e \<Rightarrow> Inl e
                | Inr (rs, k') \<Rightarrow> Inr (0 # rs, k'))
           | Inr (Some r) \<Rightarrow>
               (case evaluate_small
                       (if length (cache k) < 1000 then k\<lparr>cache := cache k @ [(x, r)]\<rparr> else k)
                       xs of
                  Inl e \<Rightarrow> Inl e
                | Inr (rs, k') \<Rightarrow> Inr (r # rs, k'))))"

text \<open>Lines 154 to 163: chunks of a thousand points, no cache.\<close>

definition chunk_size :: nat where
  "chunk_size = 1000"

fun evaluate_chunk :: "FastKDE \<Rightarrow> real list \<Rightarrow> py_error + real list" where
  "evaluate_chunk k [] = Inr []"
| "evaluate_chunk k (x # xs) =
     (case kde_at k x of
        Inl e \<Rightarrow> Inl e
      | Inr v \<Rightarrow>
          (case evaluate_chunk k xs of
             Inl e \<Rightarrow> Inl e
           | Inr rs \<Rightarrow> Inr ((case v of None \<Rightarrow> 0 | Some r \<Rightarrow> r) # rs)))"

function evaluate_large :: "FastKDE \<Rightarrow> real list \<Rightarrow> py_error + real list" where
  "evaluate_large k pts =
     (if pts = [] then Inr []
      else (case evaluate_chunk k (take chunk_size pts) of
              Inl e \<Rightarrow> Inl e
            | Inr rs \<Rightarrow>
                (case evaluate_large k (drop chunk_size pts) of
                   Inl e \<Rightarrow> Inl e
                 | Inr rest \<Rightarrow> Inr (rs @ rest))))"
  by pat_completeness auto
termination
  by (relation "measure (\<lambda>(k, pts). length pts)") (auto simp: chunk_size_def)

declare evaluate_large.simps [simp del]

definition evaluate :: "FastKDE \<Rightarrow> real list \<Rightarrow> py_error + (real list \<times> FastKDE)" where
  "evaluate k points =
     (if length points \<le> 10 then evaluate_small k points
      else (case evaluate_large k points of Inl e \<Rightarrow> Inl e | Inr rs \<Rightarrow> Inr (rs, k)))"


text \<open>\<^verbatim>\<open>FastKDE.__eq__\<close>\<close>

definition kde_eq :: "FastKDE \<Rightarrow> FastKDE \<Rightarrow> bool" where
  "kde_eq k1 k2 = (data k1 = data k2 \<and> weights k1 = weights k2 \<and> bandwidth k1 = bandwidth k2)"

text \<open>
  The objects a program can hold: built by the constructor, then used through
  \<^verbatim>\<open>evaluate\<close>. (Nothing in the repository assigns to a field of a built object.)
\<close>

inductive reachable :: "FastKDE \<Rightarrow> bool" where
  built: "FastKDE_init d w b = Inr k \<Longrightarrow> reachable k"
| used: "reachable k \<Longrightarrow> evaluate k points = Inr (rs, k') \<Longrightarrow> reachable k'"

section \<open>The batched likelihood evaluator (\<^verbatim>\<open>fast_kde.py\<close>)\<close>

definition bind_err :: "py_error + 'a \<Rightarrow> ('a \<Rightarrow> py_error + 'b) \<Rightarrow> py_error + 'b" where
  "bind_err m f = (case m of Inl e \<Rightarrow> Inl e | Inr v \<Rightarrow> f v)"







text \<open>The value of \<^verbatim>\<open>kde_dict[b]\<close>, also the value of \<^verbatim>\<open>theta_phi_current[biomarker]\<close>.\<close>

record kde_entry =
  theta_kde :: FastKDE
  theta_weights :: "real list"
  phi_kde :: FastKDE
  phi_weights :: "real list"







section \<open>The EM update of the weights (\<^verbatim>\<open>fast_kde.py\<close>)\<close>

text \<open>\<^verbatim>\<open>probs[mask]\<close> with a boolean mask: the entries where the mask holds.\<close>

definition mask_select :: "real list \<Rightarrow> bool list \<Rightarrow> real list" where
  "mask_select probs msk = map fst (filter snd (zip probs msk))"

text \<open>
  Lines 390 to 398, with the index \<open>i\<close> of \<^verbatim>\<open>enumerate\<close>. A participant without a
  posterior is a \<^verbatim>\<open>KeyError\<close>; a mask of another length than \<^verbatim>\<open>probs\<close>, and a write
  past the end of the weight arrays, an \<^verbatim>\<open>IndexError\<close>.
\<close>

fun em_weight_loop ::
  "(int \<rightharpoonup> real list) \<Rightarrow> int list \<Rightarrow> int \<Rightarrow> nat \<Rightarrow> (int \<times> bool) list
     \<Rightarrow> real list \<times> real list \<Rightarrow> py_error + (real list \<times> real list)" where
  "em_weight_loop stage_post disease_stages curr_order i [] (tw, pw) = Inr (tw, pw)"
| "em_weight_loop stage_post disease_stages curr_order i ((p, d) # rest) (tw, pw) =
     (if \<not> d
      then (if i < length pw
            then em_weight_loop stage_post disease_stages curr_order (Suc i) rest
                   (tw, pw[i := 1])
            else Inl IndexError)
      else (case stage_post p of
              None \<Rightarrow> Inl KeyError
            | Some probs \<Rightarrow>
                (if length probs \<noteq> length disease_stages then Inl IndexError
                 else if i < length tw \<and> i < length pw
                 then em_weight_loop stage_post disease_stages curr_order (Suc i) rest
                        (tw[i := sum_list (mask_select probs
                                             (map (\<lambda>s. s \<ge> curr_order) disease_stages))],
                         pw[i := sum_list (mask_select probs
                                             (map (\<lambda>s. s < curr_order) disease_stages))])
                 else Inl IndexError)))"

text \<open>Lines 385 to 398: both arrays start as zeros of the length of \<^verbatim>\<open>measurements\<close>.\<close>

definition raw_weights ::
  "int list \<Rightarrow> real list \<Rightarrow> bool list \<Rightarrow> (int \<rightharpoonup> real list) \<Rightarrow> int list \<Rightarrow> int
     \<Rightarrow> py_error + (real list \<times> real list)" where
  "raw_weights participants measurements diseased stage_post disease_stages curr_order =
     em_weight_loop stage_post disease_stages curr_order 0 (zip participants diseased)
       (replicate (length measurements) 0, replicate (length measurements) 0)"

text \<open>Lines 401 to 405 (and 407 to 411).\<close>

definition normalize_weights :: "real list \<Rightarrow> real list" where
  "normalize_weights ws =
     (if sum_list ws > 0 then map (\<lambda>w. w / sum_list ws) ws
      else replicate (length ws) (1 / real (length ws)))"

text \<open>
  \<^verbatim>\<open>np.mean(np.abs(a - b))\<close>: arrays of one length, or one of them a single value;
  the mean of no value is \<^verbatim>\<open>nan\<close>.
\<close>

definition np_sub :: "real list \<Rightarrow> real list \<Rightarrow> py_error + real list" where
  "np_sub xs ys =
     (if length xs = length ys then Inr (map (\<lambda>(x, y). x - y) (zip xs ys))
      else if length xs = 1 then Inr (map (\<lambda>y. hd xs - y) ys)
      else if length ys = 1 then Inr (map (\<lambda>x. x - hd ys) xs)
      else Inl (ValueError ''operands could not be broadcast together''))"

definition np_mean :: "real list \<Rightarrow> pyfloat" where
  "np_mean xs = (if xs = [] then NaN else Fin (sum_list xs / real (length xs)))"

definition mean_abs_diff :: "real list \<Rightarrow> real list \<Rightarrow> py_error + pyfloat" where
  "mean_abs_diff xs ys = bind_err (np_sub xs ys) (\<lambda>ds. Inr (np_mean (map abs ds)))"

text \<open>Lines 414 to 419 (and 422 to 427): keep the object and its weights, or build anew.\<close>

definition kde_decision ::
  "real list \<Rightarrow> real list \<Rightarrow> FastKDE \<Rightarrow> real list \<Rightarrow> real
     \<Rightarrow> py_error + (FastKDE \<times> real list)" where
  "kde_decision measurements new_ws old_kde old_ws threshold =
     bind_err (mean_abs_diff new_ws old_ws) (\<lambda>m.
       if flt m (Fin threshold) then Inr (old_kde, old_ws)
       else bind_err (FastKDE_init measurements (Some new_ws) Silverman) (\<lambda>k.
              Inr (k, new_ws)))"

definition update_kde_for_biomarker_em ::
  "'b \<Rightarrow> int list \<Rightarrow> real list \<Rightarrow> bool list \<Rightarrow> (int \<rightharpoonup> real list) \<Rightarrow> ('b \<rightharpoonup> kde_entry)
     \<Rightarrow> int list \<Rightarrow> int \<Rightarrow> real
     \<Rightarrow> py_error + (FastKDE \<times> real list \<times> FastKDE \<times> real list)" where
  "update_kde_for_biomarker_em biomarker participants measurements diseased stage_post
       theta_phi_current disease_stages curr_order threshold =
     bind_err (raw_weights participants measurements diseased stage_post disease_stages
                 curr_order) (\<lambda>(tw0, pw0).
       (let tw = normalize_weights tw0;
            pw = normalize_weights pw0
        in case theta_phi_current biomarker of
             None \<Rightarrow> Inl KeyError
           | Some cur \<Rightarrow>
               bind_err (kde_decision measurements tw (theta_kde cur) (theta_weights cur)
                           threshold) (\<lambda>(tk, tws).
               bind_err (kde_decision measurements pw (phi_kde cur) (phi_weights cur)
                           threshold) (\<lambda>(pk, pws).
                 Inr (tk, tws, pk, pws)))))"

text \<open>A posterior, an estimator and a current estimate to run the update on.\<close>

definition example_stage_post :: "int \<rightharpoonup> real list" where
  "example_stage_post = [2 \<mapsto> [1 / 4, 3 / 4]]"

definition example_kde :: FastKDE where
  "example_kde = \<lparr>data = [5, 7], weights = [0, 1], bandwidth = 1, tree = [5, 7],
                   cache = [(5, 0)]\<rparr>"

definition example_uniform_current :: "string \<rightharpoonup> kde_entry" where
  "example_uniform_current =
     [''A'' \<mapsto> \<lparr>theta_kde = example_kde, theta_weights = [1 / 2, 1 / 2],
                phi_kde = example_kde, phi_weights = [1 / 2, 1 / 2]\<rparr>]"

definition example_current :: "string \<rightharpoonup> kde_entry" where
  "example_current =
     [''A'' \<mapsto> \<lparr>theta_kde = example_kde, theta_weights = [0, 1],
                phi_kde = example_kde, phi_weights = [1 / 2, 1 / 2]\<rparr>]"

text \<open>
  The invariant of the cache: every entry holds what the evaluation of its point gives.
\<close>

definition cache_ok :: "FastKDE \<Rightarrow> bool" where
  "cache_ok k = list_all (\<lambda>(x, v). kde_at k x = Inr (Some v)) (cache k)"

text \<open>What a call of \<^verbatim>\<open>evaluate\<close> hands back: the array, or the exception.\<close>

definition returned :: "py_error + (real list \<times> FastKDE) \<Rightarrow> py_error + real list" where
  "returned r = (case r of Inl e \<Rightarrow> Inl e | Inr (rs, k) \<Rightarrow> Inr rs)"













section \<open>Properties of the sampler\<close>

lemma decide_traces:
  "decide alg u p st = Inr st' \<Longrightarrow>
     all_accepted_orders st' = all_accepted_orders st \<and> log_likelihoods st' = log_likelihoods st"
  by (auto simp: decide_def Let_def split: if_splits option.splits)

lemma decide_accepted_dict:
  "decide alg u p st = Inr st' \<Longrightarrow> accepts u (new_ln_likelihood p) (current_ln_likelihood st) \<Longrightarrow>
     current_order_dict st' = new_order_dict p"
  by (auto simp: decide_def Let_def split: if_splits option.splits)

lemma log_progress_fields:
  "all_accepted_orders (log_progress n i st) = all_accepted_orders st"
  "log_likelihoods (log_progress n i st) = log_likelihoods st"
  "current_order_dict (log_progress n i st) = current_order_dict st"
  by (simp_all add: log_progress_def)

lemma mh_iteration_appends:
  assumes "mh_iteration c a i st = Inr st'"
  shows "log_likelihoods st' = log_likelihoods st @ [current_ln_likelihood st]"
    and "all_accepted_orders st' = all_accepted_orders st @ [current_order_dict st']"
  using assms
  by (auto simp: mh_iteration_def Let_def log_progress_fields split: prod.splits sum.splits
           dest!: decide_traces)

lemma mh_loop_lengths:
  "mh_loop c a is st = Inr st' \<Longrightarrow>
     length (log_likelihoods st') = length (log_likelihoods st) + length is \<and>
     length (all_accepted_orders st') = length (all_accepted_orders st) + length is"
proof (induction "is" arbitrary: st)
  case Nil
  then show ?case by simp
next
  case (Cons i "is")
  then obtain st1 where s1: "mh_iteration c a i st = Inr st1" and s2: "mh_loop c a is st1 = Inr st'"
    by (auto split: sum.splits)
  from mh_iteration_appends[OF s1] Cons.IH[OF s2] show ?case by simp
qed

lemma mh_loop_extends:
  "mh_loop c a is st = Inr st' \<Longrightarrow>
     (\<exists>xs. log_likelihoods st' = log_likelihoods st @ xs) \<and>
     (\<exists>ys. all_accepted_orders st' = all_accepted_orders st @ ys)"
proof (induction "is" arbitrary: st)
  case Nil
  then show ?case by simp
next
  case (Cons i "is")
  then obtain st1 where s1: "mh_iteration c a i st = Inr st1" and s2: "mh_loop c a is st1 = Inr st'"
    by (auto split: sum.splits)
  from mh_iteration_appends[OF s1] Cons.IH[OF s2] show ?case by auto
qed

lemma mh_init_fields:
  "log_likelihoods (mh_init c a g) = []" "all_accepted_orders (mh_init c a g) = []"
  "current_ln_likelihood (mh_init c a g) = NInf"
  by (simp_all add: mh_init_def Let_def split: prod.splits)

lemma metropolis_hastings_items:
  assumes "metropolis_hastings c a g = Inr items"
  obtains st where "mh_loop c a [0 ..< nat (iterations a)] (mh_init c a g) = Inr st"
    and "items = [AcceptedOrders (all_accepted_orders st), LogLikelihoods (log_likelihoods st)]"
  using assms by (auto simp: metropolis_hastings_def mh_final_def split: sum.splits)

lemma propose_ignores_trace:
  "propose c a (st\<lparr>log_likelihoods := ls\<rparr>) = propose c a st"
  by (simp add: propose_def Let_def split: prod.splits)

text \<open>The rule of lines 114 to 118.\<close>

lemma accepts_from_minus_infinity: "u < 1 \<Longrightarrow> accepts u (Fin x) NInf"
  by (simp add: accepts_def prob_accept_def fgt_def)

lemma accepts_when_better:
  assumes "fgt new_ll current_ll" and "u < 1"
  shows "prob_accept new_ll current_ll = Fin 1" and "accepts u new_ll current_ll"
  using assms
  by (cases new_ll; cases current_ll; simp add: accepts_def prob_accept_def fgt_def)+

lemma decide_rule:
  "decide alg u p st = Inr st' \<Longrightarrow>
     (if flt (Fin u) (prob_accept (new_ln_likelihood p) (current_ln_likelihood st))
      then current_order st' = new_order p \<and> current_order_dict st' = new_order_dict p \<and>
           current_ln_likelihood st' = new_ln_likelihood p \<and>
           acceptance_count st' = acceptance_count st + 1 \<and>
           (if alg = ''hard_kmeans'' then current_theta_phi st' = current_theta_phi st
            else new_theta_phi p = Some (current_theta_phi st'))
      else st' = st)"
  by (auto simp: decide_def accepts_def Let_def split: if_splits option.splits)

lemma decide_documented_models:
  "alg = ''hard_kmeans'' \<or> new_theta_phi p \<noteq> None \<Longrightarrow> \<exists>st'. decide alg u p st = Inr st'"
  by (auto simp: decide_def Let_def split: option.splits)

lemma decide_unbound:
  "alg \<noteq> ''hard_kmeans'' \<Longrightarrow> new_theta_phi p = None \<Longrightarrow>
   accepts u (new_ln_likelihood p) (current_ln_likelihood st) \<Longrightarrow>
   decide alg u p st = Inl (UnboundLocalError ''new_theta_phi'')"
  by (simp add: decide_def Let_def)

lemma first_iteration:
  assumes it: "mh_iteration c a i (mh_init c a g) = Inr st1"
    and u: "\<forall>g'. fst (rand c g') < 1"
    and fin: "is_finite (new_ln_likelihood (first_proposal c a g))"
  shows "current_order_dict st1 = new_order_dict (first_proposal c a g)"
proof -
  obtain p g1 where p: "propose c a (mh_init c a g) = (p, g1)" by (cases "propose c a (mh_init c a g)")
  obtain v g2 where r: "rand c g1 = (v, g2)" by (cases "rand c g1")
  from u r have v: "v < 1" by (metis fst_conv)
  from p have fp: "first_proposal c a g = p" by (simp add: first_proposal_def)
  from fin fp obtain x where x: "new_ln_likelihood p = Fin x"
    by (auto simp: is_finite_def split: pyfloat.splits)
  let ?st = "(mh_init c a g)\<lparr>log_likelihoods := log_likelihoods (mh_init c a g) @ [current_ln_likelihood (mh_init c a g)], gen := g2\<rparr>"
  from it p r obtain st2 where d: "decide (algorithm a) v p ?st = Inr st2"
    and st1: "st1 = log_progress (iterations a) i (st2\<lparr>all_accepted_orders := all_accepted_orders st2 @ [current_order_dict st2]\<rparr>)"
    by (auto simp: mh_iteration_def Let_def propose_ignores_trace split: sum.splits)
  have "accepts v (new_ln_likelihood p) (current_ln_likelihood ?st)"
    using accepts_from_minus_infinity[OF v] x by (simp add: mh_init_fields)
  from decide_accepted_dict[OF d this] st1 fp show ?thesis
    by (simp add: log_progress_fields)
qed

text \<open>
  C2. When a run with \<open>iterations = N\<close>, \<open>N \<ge> 0\<close>, returns, the trace of accepted
  orders and the trace of log-likelihoods both have exactly \<open>N\<close> entries. Every iteration
  that completes appends to the log-likelihood trace the log-likelihood it started with
  (the value before the decision) and appends to the accepted-orders trace the current
  ordering as it is after the decision, whether the proposal was accepted or rejected.
\<close>

theorem trace_length_invariant:
  assumes "metropolis_hastings c a g = Inr items" and "0 \<le> iterations a"
  shows "(\<exists>os ls. items = [AcceptedOrders os, LogLikelihoods ls] \<and>
            int (length os) = iterations a \<and> int (length ls) = iterations a) \<and>
         (\<forall>i st st'. mh_iteration c a i st = Inr st' \<longrightarrow>
            log_likelihoods st' = log_likelihoods st @ [current_ln_likelihood st] \<and>
            all_accepted_orders st' = all_accepted_orders st @ [current_order_dict st'])"
proof -
  from assms(1) obtain st where
    "mh_loop c a [0 ..< nat (iterations a)] (mh_init c a g) = Inr st" and
    items: "items = [AcceptedOrders (all_accepted_orders st), LogLikelihoods (log_likelihoods st)]"
    by (rule metropolis_hastings_items)
  from mh_loop_lengths[OF this(1)] assms(2) items
  have "\<exists>os ls. items = [AcceptedOrders os, LogLikelihoods ls] \<and>
            int (length os) = iterations a \<and> int (length ls) = iterations a"
    by (simp add: mh_init_fields)
  then show ?thesis using mh_iteration_appends by blast
qed

lemmas example_run_defs =
  metropolis_hastings_def mh_final_def mh_init_def example_collab_def example_args_def
  n_stages_def mh_iteration_def propose_def decide_def accepts_def prob_accept_def fgt_def
  diseased_stages_def Let_def upto.simps log_progress_def numeral_2_eq_2 numeral_3_eq_3

lemma example_run_baseline:
  "metropolis_hastings example_collab (example_args ''hard_kmeans'' 2) 0 =
     Inr [AcceptedOrders [[(''A'', 2), (''B'', 1)], [(''A'', 1), (''B'', 2)]],
          LogLikelihoods [NInf, Fin (- 2)]]"
  by (simp add: example_run_defs)

theorem trace_length_invariant_witness:
  "metropolis_hastings example_collab (example_args ''hard_kmeans'' 2) 0 =
     Inr [AcceptedOrders [[(''A'', 2), (''B'', 1)], [(''A'', 1), (''B'', 2)]],
          LogLikelihoods [NInf, Fin (- 2)]] \<and>
   (\<exists>os ls. [AcceptedOrders [[(''A'', 2), (''B'', 1)], [(''A'', 1), (''B'', 2)]],
          LogLikelihoods [NInf, Fin (- 2)]] = [AcceptedOrders os, LogLikelihoods ls :: (string, int, unit) ret_item] \<and>
       int (length os) = 2 \<and> int (length ls) = 2)"
  using trace_length_invariant[OF example_run_baseline] example_run_baseline
  by (simp add: example_args_def)

text \<open>
  C10. The current log-likelihood is minus infinity before the loop. So when a run with at
  least one iteration returns, the first entry of its log-likelihood trace is minus
  infinity, and when the log-likelihood computed for the first proposal is finite, the
  first draw (a value of [0, 1)) accepts it: the first entry of the accepted-orders trace
  is the ordering proposed first.
\<close>

theorem first_entry_minus_infinity:
  assumes "metropolis_hastings c a g = Inr items" and "1 \<le> iterations a"
    and "\<forall>g'. 0 \<le> fst (rand c g') \<and> fst (rand c g') < 1"
  shows "current_ln_likelihood (mh_init c a g) = NInf \<and>
         (\<exists>os ls. items = [AcceptedOrders os, LogLikelihoods ls] \<and> os \<noteq> [] \<and> ls \<noteq> [] \<and>
            hd ls = NInf \<and>
            (is_finite (new_ln_likelihood (first_proposal c a g)) \<longrightarrow>
               accepts (fst (rand c (snd (propose c a (mh_init c a g)))))
                 (new_ln_likelihood (first_proposal c a g)) NInf \<and>
               hd os = new_order_dict (first_proposal c a g)))"
proof -
  from assms(1) obtain st where
    loop: "mh_loop c a [0 ..< nat (iterations a)] (mh_init c a g) = Inr st" and
    items: "items = [AcceptedOrders (all_accepted_orders st), LogLikelihoods (log_likelihoods st)]"
    by (rule metropolis_hastings_items)
  from assms(2) have "[0 ..< nat (iterations a)] = 0 # [1 ..< nat (iterations a)]"
    by (simp add: upt_rec)
  with loop obtain st1 where it: "mh_iteration c a 0 (mh_init c a g) = Inr st1"
    and rest: "mh_loop c a [1 ..< nat (iterations a)] st1 = Inr st"
    by (auto split: sum.splits)
  from mh_iteration_appends[OF it]
  have l1: "log_likelihoods st1 = [NInf]" and o1: "all_accepted_orders st1 = [current_order_dict st1]"
    by (simp_all add: mh_init_fields)
  from mh_loop_extends[OF rest] l1 o1 obtain xs ys where
    ls: "log_likelihoods st = NInf # xs" and os: "all_accepted_orders st = current_order_dict st1 # ys"
    by auto
  from assms(3) have u: "\<forall>g'. fst (rand c g') < 1" by simp
  have acc: "is_finite (new_ln_likelihood (first_proposal c a g)) \<Longrightarrow>
      accepts (fst (rand c (snd (propose c a (mh_init c a g)))))
                 (new_ln_likelihood (first_proposal c a g)) NInf"
    using u accepts_from_minus_infinity
    by (auto simp: is_finite_def split: pyfloat.splits)
  show ?thesis
    using items ls os first_iteration[OF it u] acc by (simp add: mh_init_fields)
qed

lemma example_run_mle:
  "metropolis_hastings example_collab (example_args ''mle'' 1) 0 =
     Inr [AcceptedOrders [[(''A'', 2), (''B'', 1)]], LogLikelihoods [NInf]]"
  by (simp add: example_run_defs)

theorem first_entry_minus_infinity_witness:
  "metropolis_hastings example_collab (example_args ''mle'' 1) 0 =
     Inr [AcceptedOrders [[(''A'', 2), (''B'', 1)]], LogLikelihoods [NInf]] \<and>
   1 \<le> iterations (example_args ''mle'' 1) \<and>
   (\<forall>g'. 0 \<le> fst (rand example_collab g') \<and> fst (rand example_collab g') < 1) \<and>
   is_finite (new_ln_likelihood (first_proposal example_collab (example_args ''mle'' 1) 0)) \<and>
   new_order_dict (first_proposal example_collab (example_args ''mle'' 1) 0) = [(''A'', 2), (''B'', 1)]"
proof -
  have r: "\<forall>g'. 0 \<le> fst (rand example_collab g') \<and> fst (rand example_collab g') < 1"
    by (simp add: example_collab_def)
  have i: "1 \<le> iterations (example_args ''mle'' 1)" by (simp add: example_args_def)
  have f: "is_finite (new_ln_likelihood (first_proposal example_collab (example_args ''mle'' 1) 0))"
    by (simp add: first_proposal_def is_finite_def example_run_defs)
  from first_entry_minus_infinity[OF example_run_mle i r] f r i example_run_mle
  show ?thesis by simp
qed

text \<open>
  The sampler returns for the three models its docstring names: the branch that computes
  the proposal of \<^verbatim>\<open>conjugate_priors\<close> and \<^verbatim>\<open>mle\<close> assigns \<^verbatim>\<open>new_theta_phi\<close>, and
  \<^verbatim>\<open>hard_kmeans\<close> never reads it.
\<close>

lemma propose_parameters:
  "new_theta_phi (fst (propose c a st)) \<noteq> None \<longleftrightarrow>
     algorithm a = ''conjugate_priors'' \<or> algorithm a = ''mle''"
  by (simp add: propose_def Let_def split: prod.splits)

lemma mh_iteration_returns:
  assumes "algorithm a \<in> {''hard_kmeans'', ''conjugate_priors'', ''mle''}"
  shows "\<exists>st'. mh_iteration c a i st = Inr st'"
proof -
  let ?st1 = "st\<lparr>log_likelihoods := log_likelihoods st @ [current_ln_likelihood st]\<rparr>"
  obtain p g1 where p: "propose c a ?st1 = (p, g1)" by (cases "propose c a ?st1")
  obtain u g2 where u: "rand c g1 = (u, g2)" by (cases "rand c g1")
  from assms propose_parameters[of c a ?st1] p
  have "algorithm a = ''hard_kmeans'' \<or> new_theta_phi p \<noteq> None" by auto
  from decide_documented_models[OF this] obtain st2 where
    "decide (algorithm a) u p (?st1\<lparr>gen := g2\<rparr>) = Inr st2" by blast
  with p u show ?thesis by (simp add: mh_iteration_def Let_def)
qed

lemma mh_loop_returns:
  assumes "algorithm a \<in> {''hard_kmeans'', ''conjugate_priors'', ''mle''}"
  shows "\<exists>st'. mh_loop c a is st = Inr st'"
proof (induction "is" arbitrary: st)
  case Nil
  then show ?case by simp
next
  case (Cons i "is")
  from mh_iteration_returns[OF assms] obtain st1 where "mh_iteration c a i st = Inr st1"
    by blast
  with Cons.IH[of st1] show ?case by simp
qed

lemma sampler_returns:
  assumes "algorithm a \<in> {''hard_kmeans'', ''conjugate_priors'', ''mle''}"
  shows "\<exists>items. metropolis_hastings c a g = Inr items"
  using mh_loop_returns[OF assms, of c "[0 ..< nat (iterations a)]" "mh_init c a g"]
  by (auto simp: metropolis_hastings_def mh_final_def)

text \<open>
  For every other name the first accepted proposal ends the run: with a generator that
  draws below 1 and a finite first log-likelihood, that is the first iteration.
\<close>

lemma sampler_unbound:
  assumes alg: "algorithm a \<notin> {''hard_kmeans'', ''conjugate_priors'', ''mle''}"
    and n: "1 \<le> iterations a"
    and u: "\<forall>g'. fst (rand c g') < 1"
    and fin: "is_finite (new_ln_likelihood (first_proposal c a g))"
  shows "metropolis_hastings c a g = Inl (UnboundLocalError ''new_theta_phi'')"
proof -
  let ?st0 = "mh_init c a g"
  let ?st1 = "?st0\<lparr>log_likelihoods := log_likelihoods ?st0 @ [current_ln_likelihood ?st0]\<rparr>"
  obtain p g1 where p: "propose c a ?st0 = (p, g1)" by (cases "propose c a ?st0")
  then have p1: "propose c a ?st1 = (p, g1)" by (simp add: propose_ignores_trace)
  obtain v g2 where r: "rand c g1 = (v, g2)" by (cases "rand c g1")
  from u r have v: "v < 1" by (metis fst_conv)
  from p have fp: "first_proposal c a g = p" by (simp add: first_proposal_def)
  from fin fp obtain x where x: "new_ln_likelihood p = Fin x"
    by (auto simp: is_finite_def split: pyfloat.splits)
  from alg propose_parameters[of c a ?st0] p have none: "new_theta_phi p = None" by auto
  have acc: "accepts v (new_ln_likelihood p) (current_ln_likelihood (?st1\<lparr>gen := g2\<rparr>))"
    using accepts_from_minus_infinity[OF v] x by (simp add: mh_init_fields)
  from alg have "algorithm a \<noteq> ''hard_kmeans''" by auto
  from decide_unbound[OF this none acc]
  have "mh_iteration c a 0 ?st0 = Inl (UnboundLocalError ''new_theta_phi'')"
    using p1 r by (simp add: mh_iteration_def Let_def)
  moreover from n have "[0 ..< nat (iterations a)] = 0 # [1 ..< nat (iterations a)]"
    by (simp add: upt_rec)
  ultimately show ?thesis
    by (simp add: metropolis_hastings_def mh_final_def)
qed

text \<open>
  C1, at the model \<^verbatim>\<open>kde\<close>, one iteration. The proposal is accepted (its log-likelihood
  is finite, the current one minus infinity); the model is not the baseline, so the
  accept branch reads \<^verbatim>\<open>new_theta_phi\<close>, which only the branch of \<^verbatim>\<open>conjugate_priors\<close>
  and \<^verbatim>\<open>mle\<close> assigns: the run ends in an \<^verbatim>\<open>UnboundLocalError\<close>, with no parameter
  set replaced and no counter incremented.
\<close>

theorem accept_reads_unbound_parameters:
  "metropolis_hastings example_collab (example_args ''kde'' 1) 0 =
     Inl (UnboundLocalError ''new_theta_phi'')"
  by (simp add: example_run_defs)

text \<open>
  C3, at a run of zero iterations. The value returned has two items, the accepted orders
  and the log-likelihoods; there is no parameter set and no stage posterior in it.
\<close>

theorem sampler_returns_two_items:
  "metropolis_hastings example_collab (example_args ''conjugate_priors'' 0) 0 =
     Inr [AcceptedOrders [], LogLikelihoods []]"
  by (simp add: example_run_defs)

section \<open>Properties of the run entry point\<close>

lemma run_ebm_rejected:
  "run_algorithm a \<notin> allowed_algorithms \<Longrightarrow>
     run_ebm rc a = ([], Inl (InvalidAlgorithm (run_algorithm a)))"
  by (simp add: run_ebm_def)

lemma run_ebm_admitted:
  assumes "run_algorithm a \<in> allowed_algorithms"
  shows "fst (run_ebm rc a) \<noteq> []" and "snd (run_ebm rc a) \<noteq> Inl (InvalidAlgorithm s)"
  using assms
  by (auto simp: run_ebm_def Let_def split: sum.splits list.splits)

text \<open>
  C8. For every name outside the supported set (the baseline \<^verbatim>\<open>hard_kmeans\<close>, the parametric
  \<^verbatim>\<open>conjugate_priors\<close> and \<^verbatim>\<open>mle\<close>, the non-parametric \<^verbatim>\<open>em\<close> and \<^verbatim>\<open>kde\<close>) the run
  entry point fails with the invalid-algorithm error and has done nothing before: no
  clean-up, no reading of the data, no call of the sampler. For every supported name that
  error is not raised, and the run goes on to its first effects.
\<close>

theorem invalid_algorithm_fails_first:
  "allowed_algorithms = {''hard_kmeans'', ''mle'', ''conjugate_priors'', ''em'', ''kde''} \<and>
   (run_algorithm a \<notin> allowed_algorithms \<longrightarrow>
      run_ebm rc a = ([], Inl (InvalidAlgorithm (run_algorithm a)))) \<and>
   (run_algorithm a \<in> allowed_algorithms \<longrightarrow>
      fst (run_ebm rc a) \<noteq> [] \<and> (\<forall>s. snd (run_ebm rc a) \<noteq> Inl (InvalidAlgorithm s)))"
  using run_ebm_rejected[of a rc] run_ebm_admitted[of a rc]
  by (simp add: allowed_algorithms_def)

theorem invalid_algorithm_fails_first_witness:
  "run_ebm example_run_collab (example_run_args ''soft_kmeans'') =
     ([], Inl (InvalidAlgorithm ''soft_kmeans'')) \<and>
   fst (run_ebm example_run_collab (example_run_args ''kde'')) \<noteq> [] \<and>
   snd (run_ebm example_run_collab (example_run_args ''kde'')) = Inr ()"
proof -
  have out: "run_algorithm (example_run_args ''soft_kmeans'') \<notin> allowed_algorithms"
    by (simp add: example_run_args_def allowed_algorithms_def)
  have inn: "run_algorithm (example_run_args ''kde'') \<in> allowed_algorithms"
    by (simp add: example_run_args_def allowed_algorithms_def)
  have res: "snd (run_ebm example_run_collab (example_run_args ''kde'')) = Inr ()"
    by (simp add: run_ebm_def example_run_args_def example_run_collab_def
        allowed_algorithms_def)
  from invalid_algorithm_fails_first[of "example_run_args ''soft_kmeans''" example_run_collab]
    invalid_algorithm_fails_first[of "example_run_args ''kde''" example_run_collab]
    out inn res
  show ?thesis by (simp add: example_run_args_def)
qed

section \<open>Properties of the EM update\<close>

lemma sum_mask_select:
  "length probs = length ds \<Longrightarrow>
     sum_list (mask_select probs (map P ds)) = (\<Sum>k<length ds. if P (ds ! k) then probs ! k else 0)"
proof (induction probs ds rule: list_induct2)
  case Nil
  then show ?case by (simp add: mask_select_def)
next
  case (Cons p ps d ds)
  have "(\<Sum>k<Suc (length ds). if P ((d # ds) ! k) then (p # ps) ! k else 0) =
        (if P d then p else 0) + (\<Sum>k<length ds. if P (ds ! k) then ps ! k else 0)"
    by (subst sum.lessThan_Suc_shift) (simp cong: if_cong)
  with Cons show ?case
    by (simp add: mask_select_def)
qed

lemma em_weight_loop_spec:
  assumes "em_weight_loop sp ds co i ps (tw, pw) = Inr (tw', pw')"
  shows "length tw' = length tw \<and> length pw' = length pw \<and>
         (\<forall>j<i. tw' ! j = tw ! j \<and> pw' ! j = pw ! j) \<and>
         (\<forall>j<length ps. i + j < length pw \<and>
            (\<not> snd (ps ! j) \<longrightarrow> pw' ! (i + j) = 1 \<and> tw' ! (i + j) = tw ! (i + j)) \<and>
            (snd (ps ! j) \<longrightarrow>
               (\<exists>probs. sp (fst (ps ! j)) = Some probs \<and> length probs = length ds \<and>
                  i + j < length tw \<and>
                  tw' ! (i + j) = sum_list (mask_select probs (map (\<lambda>s. s \<ge> co) ds)) \<and>
                  pw' ! (i + j) = sum_list (mask_select probs (map (\<lambda>s. s < co) ds)))))"
  using assms
proof (induction ps arbitrary: i tw pw)
  case Nil
  then show ?case by simp
next
  case (Cons pd ps)
  obtain p d where pd: "pd = (p, d)" by (cases pd)
  show ?case
  proof (cases d)
    case False
    with Cons.prems pd have i: "i < length pw"
      and rec: "em_weight_loop sp ds co (Suc i) ps (tw, pw[i := 1]) = Inr (tw', pw')"
      by (auto split: if_splits)
    note IH = Cons.IH[OF rec]
    show ?thesis
    proof (intro conjI allI impI)
      show "length tw' = length tw" "length pw' = length pw" using IH by simp_all
    next
      fix j assume "j < i"
      then show "tw' ! j = tw ! j" "pw' ! j = pw ! j" using IH by (simp_all add: less_Suc_eq)
    next
      fix j assume j: "j < length (pd # ps)"
      show "i + j < length pw" using IH i j by (cases j) auto
      {
        assume "\<not> snd ((pd # ps) ! j)"
        then show "pw' ! (i + j) = 1" "tw' ! (i + j) = tw ! (i + j)"
          using IH i j by (cases j; auto)+
      }
      {
        assume "snd ((pd # ps) ! j)"
        then show "\<exists>probs. sp (fst ((pd # ps) ! j)) = Some probs \<and> length probs = length ds \<and>
                  i + j < length tw \<and>
                  tw' ! (i + j) = sum_list (mask_select probs (map (\<lambda>s. s \<ge> co) ds)) \<and>
                  pw' ! (i + j) = sum_list (mask_select probs (map (\<lambda>s. s < co) ds))"
          using IH i j pd False by (cases j; auto)
      }
    qed
  next
    case True
    with Cons.prems pd obtain probs where sp: "sp p = Some probs" and len: "length probs = length ds"
      and i: "i < length tw" "i < length pw"
      and rec: "em_weight_loop sp ds co (Suc i) ps
                  (tw[i := sum_list (mask_select probs (map (\<lambda>s. s \<ge> co) ds))],
                   pw[i := sum_list (mask_select probs (map (\<lambda>s. s < co) ds))]) = Inr (tw', pw')"
      by (auto split: if_splits option.splits)
    note IH = Cons.IH[OF rec]
    show ?thesis
    proof (intro conjI allI impI)
      show "length tw' = length tw" "length pw' = length pw" using IH by simp_all
    next
      fix j assume "j < i"
      then show "tw' ! j = tw ! j" "pw' ! j = pw ! j" using IH by (simp_all add: less_Suc_eq)
    next
      fix j assume j: "j < length (pd # ps)"
      show "i + j < length pw" using IH i j by (cases j) auto
      {
        assume "\<not> snd ((pd # ps) ! j)"
        then show "pw' ! (i + j) = 1" "tw' ! (i + j) = tw ! (i + j)"
          using IH i j pd True by (cases j; auto)+
      }
      {
        assume "snd ((pd # ps) ! j)"
        then show "\<exists>probs. sp (fst ((pd # ps) ! j)) = Some probs \<and> length probs = length ds \<and>
                  i + j < length tw \<and>
                  tw' ! (i + j) = sum_list (mask_select probs (map (\<lambda>s. s \<ge> co) ds)) \<and>
                  pw' ! (i + j) = sum_list (mask_select probs (map (\<lambda>s. s < co) ds))"
          using IH i j pd True sp len by (cases j; auto)
      }
    qed
  qed
qed

lemma sum_list_divide: "sum_list (map (\<lambda>w. w / c) ws) = sum_list ws / (c::real)"
  by (induction ws) (simp_all add: add_divide_distrib)

lemma normalize_weights_positive:
  "0 < sum_list ws \<Longrightarrow> normalize_weights ws = map (\<lambda>w. w / sum_list ws) ws \<and>
     sum_list (normalize_weights ws) = 1"
  by (simp add: normalize_weights_def sum_list_divide)

lemma normalize_weights_fallback:
  "\<not> 0 < sum_list ws \<Longrightarrow> normalize_weights ws = replicate (length ws) (1 / real (length ws))"
  by (simp add: normalize_weights_def)

lemma normalize_weights_sum: "ws \<noteq> [] \<Longrightarrow> sum_list (normalize_weights ws) = 1"
  by (cases "0 < sum_list ws")
     (simp_all add: normalize_weights_def sum_list_divide sum_list_replicate)

lemma normalize_weights_length: "length (normalize_weights ws) = length ws"
  by (simp add: normalize_weights_def)

text \<open>
  The loop of lines 390 to 398 and the normalisation of lines 401 to 411, each on its own.
\<close>

lemma raw_weights_spec:
  assumes "raw_weights participants measurements diseased stage_post disease_stages curr_order
             = Inr (tw, pw)"
    and "length participants = length measurements"
    and "length diseased = length measurements"
  shows "length tw = length measurements \<and> length pw = length measurements \<and>
         (\<forall>i<length measurements.
            (\<not> diseased ! i \<longrightarrow> pw ! i = 1 \<and> tw ! i = 0) \<and>
            (diseased ! i \<longrightarrow>
               (\<exists>probs. stage_post (participants ! i) = Some probs \<and>
                  tw ! i = (\<Sum>k<length disease_stages.
                              if disease_stages ! k \<ge> curr_order then probs ! k else 0) \<and>
                  pw ! i = (\<Sum>k<length disease_stages.
                              if disease_stages ! k < curr_order then probs ! k else 0)))) \<and>
         (0 < sum_list tw \<longrightarrow> normalize_weights tw = map (\<lambda>w. w / sum_list tw) tw) \<and>
         (0 < sum_list pw \<longrightarrow> normalize_weights pw = map (\<lambda>w. w / sum_list pw) pw) \<and>
         (sum_list tw = 0 \<longrightarrow>
            normalize_weights tw = replicate (length measurements) (1 / real (length measurements))) \<and>
         (sum_list pw = 0 \<longrightarrow>
            normalize_weights pw = replicate (length measurements) (1 / real (length measurements))) \<and>
         (measurements \<noteq> [] \<longrightarrow>
            sum_list (normalize_weights tw) = 1 \<and> sum_list (normalize_weights pw) = 1)"
proof -
  let ?n = "length measurements"
  from assms(1) have loop: "em_weight_loop stage_post disease_stages curr_order 0
      (zip participants diseased) (replicate ?n 0, replicate ?n 0) = Inr (tw, pw)"
    by (simp add: raw_weights_def)
  note spec = em_weight_loop_spec[OF loop]
  from spec have len: "length tw = ?n" "length pw = ?n" by simp_all
  have entries: "(\<not> diseased ! i \<longrightarrow> pw ! i = 1 \<and> tw ! i = 0) \<and>
            (diseased ! i \<longrightarrow>
               (\<exists>probs. stage_post (participants ! i) = Some probs \<and>
                  tw ! i = (\<Sum>k<length disease_stages.
                              if disease_stages ! k \<ge> curr_order then probs ! k else 0) \<and>
                  pw ! i = (\<Sum>k<length disease_stages.
                              if disease_stages ! k < curr_order then probs ! k else 0)))"
    if i: "i < ?n" for i
  proof -
    from i assms(2,3) have iz: "i < length (zip participants diseased)" by simp
    from spec iz have
      a: "\<not> snd (zip participants diseased ! i) \<longrightarrow> pw ! (0 + i) = 1 \<and>
            tw ! (0 + i) = replicate ?n 0 ! (0 + i)"
      and b: "snd (zip participants diseased ! i) \<longrightarrow>
               (\<exists>probs. stage_post (fst (zip participants diseased ! i)) = Some probs \<and>
                  length probs = length disease_stages \<and> 0 + i < length (replicate ?n (0::real)) \<and>
                  tw ! (0 + i) = sum_list (mask_select probs (map (\<lambda>s. s \<ge> curr_order) disease_stages)) \<and>
                  pw ! (0 + i) = sum_list (mask_select probs (map (\<lambda>s. s < curr_order) disease_stages)))"
      by blast+
    from i assms(2,3) have z: "zip participants diseased ! i = (participants ! i, diseased ! i)"
      by simp
    show ?thesis
    proof (intro conjI impI)
      assume "\<not> diseased ! i"
      with a z i show "pw ! i = 1" "tw ! i = 0" by simp_all
    next
      assume "diseased ! i"
      with b z obtain probs where "stage_post (participants ! i) = Some probs"
        "length probs = length disease_stages"
        "tw ! i = sum_list (mask_select probs (map (\<lambda>s. s \<ge> curr_order) disease_stages))"
        "pw ! i = sum_list (mask_select probs (map (\<lambda>s. s < curr_order) disease_stages))"
        by auto
      then show "\<exists>probs. stage_post (participants ! i) = Some probs \<and>
                  tw ! i = (\<Sum>k<length disease_stages.
                              if disease_stages ! k \<ge> curr_order then probs ! k else 0) \<and>
                  pw ! i = (\<Sum>k<length disease_stages.
                              if disease_stages ! k < curr_order then probs ! k else 0)"
        by (simp add: sum_mask_select)
    qed
  qed
  have ne: "measurements \<noteq> [] \<Longrightarrow> tw \<noteq> [] \<and> pw \<noteq> []" using len by auto
  show ?thesis
    using len entries ne
    by (simp add: normalize_weights_positive normalize_weights_fallback normalize_weights_sum)
qed

lemma example_raw_weights:
  "raw_weights [1, 2] [5, 7] [False, True] example_stage_post [1, 2] 2
     = Inr ([0, 3 / 4], [1, 1 / 4])"
  by (simp add: raw_weights_def example_stage_post_def mask_select_def numeral_2_eq_2)

lemma kde_decision_cases:
  assumes "kde_decision measurements new_ws old_kde old_ws threshold = Inr (k, ws)"
  shows "\<exists>m. mean_abs_diff new_ws old_ws = Inr m \<and>
           (if flt m (Fin threshold) then k = old_kde \<and> ws = old_ws
            else FastKDE_init measurements (Some new_ws) Silverman = Inr k \<and> ws = new_ws)"
  using assms
  by (auto simp: kde_decision_def bind_err_def split: sum.splits if_splits)

lemma mean_abs_diff_value:
  "length xs = length ys \<Longrightarrow> xs \<noteq> [] \<Longrightarrow>
     mean_abs_diff xs ys =
       Inr (Fin (sum_list (map (\<lambda>(x, y). \<bar>x - y\<bar>) (zip xs ys)) / real (length xs)))"
  by (auto simp: mean_abs_diff_def np_sub_def np_mean_def bind_err_def comp_def case_prod_unfold)

lemma update_kde_for_biomarker_em_steps:
  assumes "update_kde_for_biomarker_em biomarker participants measurements diseased stage_post
             theta_phi_current disease_stages curr_order threshold = Inr (tk, tws, pk, pws)"
  obtains tw pw cur where
    "raw_weights participants measurements diseased stage_post disease_stages curr_order
       = Inr (tw, pw)"
    and "theta_phi_current biomarker = Some cur"
    and "kde_decision measurements (normalize_weights tw) (theta_kde cur) (theta_weights cur)
           threshold = Inr (tk, tws)"
    and "kde_decision measurements (normalize_weights pw) (phi_kde cur) (phi_weights cur)
           threshold = Inr (pk, pws)"
  using assms
  by (auto simp: update_kde_for_biomarker_em_def bind_err_def Let_def
           split: sum.splits option.splits prod.splits)

text \<open>
  An exception of the update is one of the loop over the participants, of the look-up of
  the current estimate, or of one of the two decisions on the normalised vectors: the
  normalisation itself raises nothing.
\<close>

lemma update_kde_for_biomarker_em_errors:
  assumes "update_kde_for_biomarker_em biomarker participants measurements diseased stage_post
             theta_phi_current disease_stages curr_order threshold = Inl e"
  shows "raw_weights participants measurements diseased stage_post disease_stages curr_order
           = Inl e \<or>
         (\<exists>tw pw. raw_weights participants measurements diseased stage_post disease_stages
                     curr_order = Inr (tw, pw) \<and>
            (theta_phi_current biomarker = None \<and> e = KeyError \<or>
             (\<exists>cur. theta_phi_current biomarker = Some cur \<and>
                (kde_decision measurements (normalize_weights tw) (theta_kde cur)
                   (theta_weights cur) threshold = Inl e \<or>
                 kde_decision measurements (normalize_weights pw) (phi_kde cur)
                   (phi_weights cur) threshold = Inl e))))"
  using assms
  by (auto simp: update_kde_for_biomarker_em_def bind_err_def Let_def
           split: sum.splits option.splits prod.splits)

text \<open>
  C4. When a call of the EM update of one biomarker returns (the arrays of participants,
  measurements and disease status of one length), the weights it has computed are these:
  a non-diseased participant has \<open>phi\<close> weight 1 and \<open>theta\<close> weight 0; a diseased participant
  has as \<open>theta\<close> weight the sum of its posterior mass over the stages at or above the stage
  of the biomarker, and as \<open>phi\<close> weight the sum over the stages below it. What the update
  goes on with, for \<open>theta\<close> and for \<open>phi\<close>, is the normalised vector: the vector divided by
  its sum when the sum is positive, the uniform vector over all participants when the sum
  is zero, and with at least one participant a vector that sums to 1. A vector that sums
  to zero raises nothing: the decisions of lines 414 to 427 are taken on the uniform
  vector, and the call returns what they return.
\<close>

theorem em_weights:
  assumes "update_kde_for_biomarker_em biomarker participants measurements diseased stage_post
             theta_phi_current disease_stages curr_order threshold = Inr (tk, tws, pk, pws)"
    and "length participants = length measurements"
    and "length diseased = length measurements"
  shows "\<exists>tw pw cur.
           raw_weights participants measurements diseased stage_post disease_stages curr_order
             = Inr (tw, pw) \<and>
           length tw = length measurements \<and> length pw = length measurements \<and>
           (\<forall>i<length measurements.
              (\<not> diseased ! i \<longrightarrow> pw ! i = 1 \<and> tw ! i = 0) \<and>
              (diseased ! i \<longrightarrow>
                 (\<exists>probs. stage_post (participants ! i) = Some probs \<and>
                    tw ! i = (\<Sum>k<length disease_stages.
                                if disease_stages ! k \<ge> curr_order then probs ! k else 0) \<and>
                    pw ! i = (\<Sum>k<length disease_stages.
                                if disease_stages ! k < curr_order then probs ! k else 0)))) \<and>
           theta_phi_current biomarker = Some cur \<and>
           kde_decision measurements (normalize_weights tw) (theta_kde cur) (theta_weights cur)
             threshold = Inr (tk, tws) \<and>
           kde_decision measurements (normalize_weights pw) (phi_kde cur) (phi_weights cur)
             threshold = Inr (pk, pws) \<and>
           (0 < sum_list tw \<longrightarrow> normalize_weights tw = map (\<lambda>w. w / sum_list tw) tw) \<and>
           (0 < sum_list pw \<longrightarrow> normalize_weights pw = map (\<lambda>w. w / sum_list pw) pw) \<and>
           (sum_list tw = 0 \<longrightarrow>
              normalize_weights tw
                = replicate (length measurements) (1 / real (length measurements))) \<and>
           (sum_list pw = 0 \<longrightarrow>
              normalize_weights pw
                = replicate (length measurements) (1 / real (length measurements))) \<and>
           (measurements \<noteq> [] \<longrightarrow>
              sum_list (normalize_weights tw) = 1 \<and> sum_list (normalize_weights pw) = 1)"
proof -
  from assms(1) obtain tw pw cur where
    raw: "raw_weights participants measurements diseased stage_post disease_stages curr_order
            = Inr (tw, pw)"
    and cur: "theta_phi_current biomarker = Some cur"
    and t: "kde_decision measurements (normalize_weights tw) (theta_kde cur) (theta_weights cur)
              threshold = Inr (tk, tws)"
    and p: "kde_decision measurements (normalize_weights pw) (phi_kde cur) (phi_weights cur)
              threshold = Inr (pk, pws)"
    by (rule update_kde_for_biomarker_em_steps)
  from raw_weights_spec[OF raw assms(2) assms(3)] raw cur t p show ?thesis
    by blast
qed

lemma example_raw_weights_healthy:
  "raw_weights [1, 2] [5, 7] [False, False] example_stage_post [1, 2] 2
     = Inr ([0, 0], [1, 1])"
  by (simp add: raw_weights_def numeral_2_eq_2)

lemma example_update_healthy:
  "update_kde_for_biomarker_em ''A'' [1, 2] [5, 7] [False, False] example_stage_post
     example_uniform_current [1, 2] 2 (1 / 100)
   = Inr (example_kde, [1 / 2, 1 / 2], example_kde, [1 / 2, 1 / 2])"
  by (simp add: update_kde_for_biomarker_em_def example_raw_weights_healthy bind_err_def
      normalize_weights_def example_uniform_current_def kde_decision_def mean_abs_diff_def
      np_sub_def np_mean_def Let_def)

theorem em_weights_witness:
  "update_kde_for_biomarker_em ''A'' [1, 2] [5, 7] [False, False] example_stage_post
     example_uniform_current [1, 2] 2 (1 / 100)
   = Inr (example_kde, [1 / 2, 1 / 2], example_kde, [1 / 2, 1 / 2]) \<and>
   raw_weights [1, 2] [5, 7] [False, False] example_stage_post [1, 2] 2
     = Inr ([0, 0], [1, 1]) \<and>
   normalize_weights [0, 0] = [1 / 2, 1 / 2] \<and>
   sum_list (normalize_weights [0, 0]) = 1 \<and> sum_list (normalize_weights [1, 1]) = 1"
proof -
  have l: "length [1, 2 :: int] = length [5, 7 :: real]"
    "length [False, False] = length [5, 7 :: real]"
    by simp_all
  from em_weights[OF example_update_healthy l] obtain tw pw where
    raw: "raw_weights [1, 2] [5, 7] [False, False] example_stage_post [1, 2] 2 = Inr (tw, pw)"
    and z: "sum_list tw = 0 \<longrightarrow>
              normalize_weights tw = replicate (length [5, 7 :: real]) (1 / real (length [5, 7 :: real]))"
    and o: "[5, 7 :: real] \<noteq> [] \<longrightarrow>
              sum_list (normalize_weights tw) = 1 \<and> sum_list (normalize_weights pw) = 1"
    by blast
  from raw example_raw_weights_healthy have "tw = [0, 0]" "pw = [1, 1]" by simp_all
  with z o example_update_healthy example_raw_weights_healthy show ?thesis
    by (simp add: numeral_2_eq_2)
qed

text \<open>
  C5. When the EM update returns, then for \<open>theta\<close> and for \<open>phi\<close> separately: if the mean
  absolute difference between the new weight vector and the previous one is strictly
  below the threshold, the object returned is the previous estimator itself (all of its
  fields, the cache too) and the weights returned are the previous weights; otherwise the
  estimator returned is the one the constructor builds from the measurements and the new
  weights, and the weights returned are the new ones.
\<close>

theorem reuse_policy:
  assumes "update_kde_for_biomarker_em biomarker participants measurements diseased stage_post
             theta_phi_current disease_stages curr_order threshold = Inr (tk, tws, pk, pws)"
  shows "\<exists>tw0 pw0 cur mt mp.
           raw_weights participants measurements diseased stage_post disease_stages curr_order
             = Inr (tw0, pw0) \<and>
           theta_phi_current biomarker = Some cur \<and>
           mean_abs_diff (normalize_weights tw0) (theta_weights cur) = Inr mt \<and>
           mean_abs_diff (normalize_weights pw0) (phi_weights cur) = Inr mp \<and>
           (if flt mt (Fin threshold)
            then tk = theta_kde cur \<and> tws = theta_weights cur
            else FastKDE_init measurements (Some (normalize_weights tw0)) Silverman = Inr tk \<and>
                 tws = normalize_weights tw0) \<and>
           (if flt mp (Fin threshold)
            then pk = phi_kde cur \<and> pws = phi_weights cur
            else FastKDE_init measurements (Some (normalize_weights pw0)) Silverman = Inr pk \<and>
                 pws = normalize_weights pw0)"
proof -
  from assms obtain tw0 pw0 cur where
    raw: "raw_weights participants measurements diseased stage_post disease_stages curr_order
            = Inr (tw0, pw0)"
    and cur: "theta_phi_current biomarker = Some cur"
    and t: "kde_decision measurements (normalize_weights tw0) (theta_kde cur) (theta_weights cur)
              threshold = Inr (tk, tws)"
    and p: "kde_decision measurements (normalize_weights pw0) (phi_kde cur) (phi_weights cur)
              threshold = Inr (pk, pws)"
    by (auto simp: update_kde_for_biomarker_em_def bind_err_def Let_def
             split: sum.splits option.splits prod.splits)
  from kde_decision_cases[OF t] kde_decision_cases[OF p] raw cur show ?thesis
    by blast
qed

lemma example_new_kde:
  "\<exists>k. FastKDE_init [5, 7] (Some [4 / 5, 1 / 5]) Silverman = Inr k \<and> cache k = []"
  by (simp add: FastKDE_init_def)

theorem reuse_policy_witness:
  "\<exists>pk. update_kde_for_biomarker_em ''A'' [1, 2] [5, 7] [False, True] example_stage_post
           example_current [1, 2] 2 (1 / 100)
         = Inr (example_kde, [0, 1], pk, [4 / 5, 1 / 5]) \<and>
        FastKDE_init [5, 7] (Some [4 / 5, 1 / 5]) Silverman = Inr pk \<and>
        cache example_kde \<noteq> [] \<and> cache pk = []"
proof -
  from example_new_kde obtain k where
    k: "FastKDE_init [5, 7] (Some [4 / 5, 1 / 5]) Silverman = Inr k" and c: "cache k = []"
    by blast
  have run: "update_kde_for_biomarker_em ''A'' [1, 2] [5, 7] [False, True] example_stage_post
           example_current [1, 2] 2 (1 / 100)
         = Inr (example_kde, [0, 1], k, [4 / 5, 1 / 5])"
    by (simp add: update_kde_for_biomarker_em_def example_raw_weights bind_err_def
        normalize_weights_def example_current_def kde_decision_def mean_abs_diff_def
        np_sub_def np_mean_def k)
  from reuse_policy[OF run] run k c show ?thesis
    by (auto simp: example_kde_def)
qed

section \<open>Properties of the estimator\<close>

lemma returned_simps:
  "returned (Inl e) = Inl e" "returned (Inr (rs, k)) = Inr rs"
  by (simp_all add: returned_def)

lemma returned_cons:
  "returned (case r of Inl e \<Rightarrow> Inl e | Inr (rs, k') \<Rightarrow> Inr (v # rs, k')) =
     (case returned r of Inl e \<Rightarrow> Inl e | Inr rs \<Rightarrow> Inr (v # rs))"
  by (auto simp: returned_def split: sum.splits)

lemma kde_at_cache: "kde_at (k\<lparr>cache := c\<rparr>) x = kde_at k x"
  by (auto simp: kde_at_def Let_def split: sum.splits)

lemma evaluate_chunk_cache: "evaluate_chunk (k\<lparr>cache := c\<rparr>) pts = evaluate_chunk k pts"
  by (induction pts) (auto simp: kde_at_cache split: sum.splits)

lemma cache_ok_lookup:
  "cache_ok k \<Longrightarrow> map_of (cache k) x = Some v \<Longrightarrow> kde_at k x = Inr (Some v)"
  by (auto simp: cache_ok_def list_all_iff dest: map_of_SomeD)

lemma cache_ok_insert:
  "cache_ok k \<Longrightarrow> kde_at k x = Inr (Some r) \<Longrightarrow> cache_ok (k\<lparr>cache := cache k @ [(x, r)]\<rparr>)"
  by (simp add: cache_ok_def kde_at_cache)

lemma evaluate_small_chunk:
  "cache_ok k \<Longrightarrow> returned (evaluate_small k pts) = evaluate_chunk k pts"
proof (induction pts arbitrary: k)
  case Nil
  then show ?case by (simp add: returned_simps)
next
  case (Cons x xs)
  show ?case
  proof (cases "map_of (cache k) x")
    case (Some v)
    with Cons.prems have "kde_at k x = Inr (Some v)" by (rule cache_ok_lookup)
    with Some Cons.IH[OF Cons.prems] show ?thesis
      by (simp add: returned_cons split: sum.splits)
  next
    case None
    show ?thesis
    proof (cases "kde_at k x")
      case (Inl e)
      with None show ?thesis by (simp add: returned_simps)
    next
      case (Inr v)
      show ?thesis
      proof (cases v)
        case None': None
        with None Inr Cons.IH[OF Cons.prems] show ?thesis
          by (simp add: returned_cons split: sum.splits)
      next
        case (Some r)
        have "cache_ok (k\<lparr>cache := cache k @ [(x, r)]\<rparr>)"
          using Cons.prems Inr Some by (simp add: cache_ok_insert)
        from Cons.IH[OF this]
        have A: "returned (evaluate_small (k\<lparr>cache := cache k @ [(x, r)]\<rparr>) xs) =
                   evaluate_chunk k xs"
          by (simp add: evaluate_chunk_cache)
        have B: "returned (evaluate_small k xs) = evaluate_chunk k xs"
          by (rule Cons.IH[OF Cons.prems])
        from None Inr Some show ?thesis
          by (cases "length (cache k) < 1000") (simp_all add: returned_cons A B split: sum.splits)
      qed
    qed
  qed
qed

lemma evaluate_small_preserves:
  "cache_ok k \<Longrightarrow> evaluate_small k pts = Inr (rs, k') \<Longrightarrow> cache_ok k'"
proof (induction pts arbitrary: k rs)
  case Nil
  then show ?case by simp
next
  case (Cons x xs)
  show ?case
  proof (cases "map_of (cache k) x")
    case (Some v)
    with Cons.prems(2) obtain rs' where "evaluate_small k xs = Inr (rs', k')"
      by (auto split: sum.splits)
    from Cons.IH[OF Cons.prems(1) this] show ?thesis .
  next
    case None
    with Cons.prems(2) obtain v where v: "kde_at k x = Inr v" by (auto split: sum.splits)
    show ?thesis
    proof (cases v)
      case None': None
      with None v Cons.prems(2) obtain rs' where "evaluate_small k xs = Inr (rs', k')"
        by (auto split: sum.splits)
      from Cons.IH[OF Cons.prems(1) this] show ?thesis .
    next
      case (Some r)
      let ?k1 = "if length (cache k) < 1000 then k\<lparr>cache := cache k @ [(x, r)]\<rparr> else k"
      have ok: "cache_ok ?k1" using Cons.prems(1) v Some by (simp add: cache_ok_insert)
      from None v Some Cons.prems(2) obtain rs' where "evaluate_small ?k1 xs = Inr (rs', k')"
        by (auto split: sum.splits)
      from Cons.IH[OF ok this] show ?thesis .
    qed
  qed
qed

lemma evaluate_chunk_append:
  "evaluate_chunk k (xs @ ys) =
     (case evaluate_chunk k xs of
        Inl e \<Rightarrow> Inl e
      | Inr rs \<Rightarrow> (case evaluate_chunk k ys of Inl e \<Rightarrow> Inl e | Inr rest \<Rightarrow> Inr (rs @ rest)))"
  by (induction xs) (auto split: sum.splits)

lemma evaluate_large_chunk: "evaluate_large k pts = evaluate_chunk k pts"
proof (induction k pts rule: evaluate_large.induct)
  case (1 k pts)
  show ?case
  proof (cases "pts = []")
    case True
    then show ?thesis by (subst evaluate_large.simps) simp
  next
    case False
    have "evaluate_chunk k pts = evaluate_chunk k (take chunk_size pts @ drop chunk_size pts)"
      by simp
    also have "\<dots> = (case evaluate_chunk k (take chunk_size pts) of
        Inl e \<Rightarrow> Inl e
      | Inr rs \<Rightarrow> (case evaluate_chunk k (drop chunk_size pts) of
                     Inl e \<Rightarrow> Inl e | Inr rest \<Rightarrow> Inr (rs @ rest)))"
      by (rule evaluate_chunk_append)
    finally have c: "evaluate_chunk k pts = (case evaluate_chunk k (take chunk_size pts) of
        Inl e \<Rightarrow> Inl e
      | Inr rs \<Rightarrow> (case evaluate_chunk k (drop chunk_size pts) of
                     Inl e \<Rightarrow> Inl e | Inr rest \<Rightarrow> Inr (rs @ rest)))" .
    show ?thesis
      using False 1 by (subst evaluate_large.simps, subst c) (auto split: sum.splits)
  qed
qed

lemma reachable_cache_ok: "reachable k \<Longrightarrow> cache_ok k"
proof (induction rule: reachable.induct)
  case (built d w b k)
  then show ?case
    by (auto simp: FastKDE_init_def cache_ok_def Let_def split: bandwidth_arg.splits if_splits)
next
  case (used k points rs k')
  then show ?case
    by (auto simp: evaluate_def split: if_splits sum.splits dest: evaluate_small_preserves)
qed

text \<open>
  C9. For every estimator a program can hold (built by the constructor, then used through
  \<^verbatim>\<open>evaluate\<close> any number of times) and every sequence of query points, the branch that
  takes the points one at a time through the cache and the branch that takes them in
  chunks of a thousand hand back the same array, or the same exception; so what
  \<^verbatim>\<open>evaluate\<close> returns does not depend on which branch the number of points selects.
  (Over exact reals: the order of the parallel summation is not modelled.)
\<close>

theorem batching_is_policy_only:
  assumes "reachable k"
  shows "returned (evaluate_small k points) = evaluate_large k points \<and>
         returned (evaluate k points) = evaluate_large k points"
proof -
  have "returned (evaluate_small k points) = evaluate_large k points"
    using reachable_cache_ok[OF assms]
    by (simp only: evaluate_small_chunk evaluate_large_chunk)
  moreover have "returned (case evaluate_large k points of
                             Inl e \<Rightarrow> Inl e | Inr rs \<Rightarrow> Inr (rs, k)) = evaluate_large k points"
    by (cases "evaluate_large k points") (simp_all add: returned_simps)
  ultimately show ?thesis
    by (simp add: evaluate_def)
qed

theorem batching_is_policy_only_witness:
  "\<exists>k. FastKDE_init [5, 7] None (Bandwidth 1) = Inr k \<and> reachable k \<and>
       returned (evaluate_small k [5, 6, 5]) = evaluate_large k [5, 6, 5]"
proof -
  obtain k where k: "FastKDE_init [5, 7] None (Bandwidth 1) = Inr k"
    by (simp add: FastKDE_init_def)
  then have r: "reachable k" by (rule reachable.built)
  from batching_is_policy_only[OF r, of "[5, 6, 5]"] k r show ?thesis by blast
qed

section \<open>Properties of the batched evaluator\<close>































end
